theory Spec2Isabelle
  imports Main "HOL-Library.Word"
begin

unbundle bit_operations_syntax

section \<open>The Arduometer dual display hand counter\<close>

text \<open>
  A shallow embedding of \<^verbatim>\<open>EE201_Arduometer_Dual_Display_Hand_Counter.ino\<close>.
  The target is an ATmega328P compiled with avr-gcc: \<^verbatim>\<open>char\<close> is a signed 8-bit
  integer and \<^verbatim>\<open>unsigned int\<close> is 16 bits wide. A \<^verbatim>\<open>char\<close> is an \<open>8 word\<close> whose
  comparisons are the signed ones (\<open><s\<close>), since C promotes both operands to
  \<^verbatim>\<open>int\<close>; an \<^verbatim>\<open>unsigned int\<close> is a \<open>16 word\<close> with the unsigned order, and \<open>+\<close>
  wraps around for both.
\<close>

subsection \<open>Pins, levels and the output trace\<close>

type_synonym char8 = "8 word"
type_synonym uint16 = "16 word"

abbreviation (input) ISRMKR :: nat where "ISRMKR \<equiv> 2"
abbreviation (input) PB0 :: nat where "PB0 \<equiv> 8"
abbreviation (input) PB1 :: nat where "PB1 \<equiv> 9"
abbreviation (input) CS :: nat where "CS \<equiv> 10"
abbreviation (input) MOSI :: nat where "MOSI \<equiv> 11"
abbreviation (input) MISO :: nat where "MISO \<equiv> 12"
abbreviation (input) SCLK :: nat where "SCLK \<equiv> 13"

abbreviation (input) LOW :: bool where "LOW \<equiv> False"
abbreviation (input) HIGH :: bool where "HIGH \<equiv> True"

text \<open>
  Everything the firmware does to the outside world is a level written to a pin or a
  byte clocked out on the SPI bus. The model records these in the order they happen.
\<close>

datatype event = DigitalWrite nat bool | SpiTransfer char8

subsection \<open>The globals\<close>

record state =
  pbtns :: char8
  counterPB0 :: uint16
  counterPB1 :: uint16
  counterPB01 :: uint16
  D0 :: char8
  D1 :: char8
  D2 :: char8
  D3 :: char8
  D4 :: char8
  D5 :: char8
  D6 :: char8
  D7 :: char8
  trace :: "event list"

text \<open>The initial values of the globals, with nothing written to the hardware yet.\<close>

definition globals :: state where
  "globals = \<lparr> pbtns = 0, counterPB0 = 0, counterPB1 = 0, counterPB01 = 0,
      D0 = 0x0F, D1 = 0x0F, D2 = 0x0F, D3 = 0x0F,
      D4 = 0x0F, D5 = 0x0F, D6 = 0x0F, D7 = 0x0F, trace = [] \<rparr>"

subsection \<open>The display driver\<close>

definition digitalWrite :: "nat \<Rightarrow> bool \<Rightarrow> state \<Rightarrow> state" where
  "digitalWrite pin level s = s\<lparr>trace := trace s @ [DigitalWrite pin level]\<rparr>"

text \<open>
  \<^verbatim>\<open>spi_transfer\<close> loads the data register and waits for the hardware's end-of-transmission
  flag; the model takes the transfer to complete. The byte it returns is read back from
  the peer, which has no return line, and every caller discards it.
\<close>

definition spi_transfer :: "char8 \<Rightarrow> state \<Rightarrow> state" where
  "spi_transfer data s = s\<lparr>trace := trace s @ [SpiTransfer data]\<rparr>"

definition display_load :: "char8 \<Rightarrow> char8 \<Rightarrow> state \<Rightarrow> state" where
  "display_load dataH dataL s =
     digitalWrite CS HIGH (spi_transfer dataL (spi_transfer dataH (digitalWrite CS LOW s)))"

definition update_upper_display :: "state \<Rightarrow> state" where
  "update_upper_display s =
     (let s1 = display_load 0x01 (D0 s) s;
          s2 = display_load 0x02 (D1 s1) s1;
          s3 = display_load 0x03 (D2 s2) s2
      in display_load 0x04 (D3 s3) s3)"

definition update_lower_display :: "state \<Rightarrow> state" where
  "update_lower_display s =
     (let s1 = display_load 0x05 (D4 s) s;
          s2 = display_load 0x06 (D5 s1) s1;
          s3 = display_load 0x07 (D6 s2) s2
      in display_load 0x08 (D7 s3) s3)"

definition display_init :: "state \<Rightarrow> state" where
  "display_init s =
     (let s1 = display_load 0x09 0xFF s;
          s2 = display_load 0x0A 0x0F s1;
          s3 = display_load 0x0B 0x07 s2;
          s4 = display_load 0x0C 0x01 s3;
          s5 = display_load 0x0F 0x00 s4;
          s6 = update_upper_display (s5\<lparr>D0 := 0x0F, D1 := 0x0F, D2 := 0x0F, D3 := 0x00\<rparr>)
      in update_lower_display (s6\<lparr>D4 := 0x0F, D5 := 0x0F, D6 := 0x0F, D7 := 0x00\<rparr>))"

subsection \<open>The pushbutton actions\<close>

definition actionPB0 :: "state \<Rightarrow> state" where
  "actionPB0 s =
     (let s1 = s\<lparr>D3 := D3 s + 1\<rparr>;
          s2 =
            (if 0x09 <s D3 s1 then
               (let a1 = s1\<lparr>D3 := 0x00\<rparr>;
                    a2 = (if D2 a1 = 0x0F then a1\<lparr>D2 := 0x00\<rparr> else a1);
                    a3 = a2\<lparr>D2 := D2 a2 + 1\<rparr>
                in if 0x09 <s D2 a3 then
                     (let b1 = a3\<lparr>D2 := 0x00\<rparr>;
                          b2 = (if D1 b1 = 0x0F then b1\<lparr>D1 := 0x00\<rparr> else b1);
                          b3 = b2\<lparr>D1 := D1 b2 + 1\<rparr>
                      in if 0x09 <s D1 b3 then
                           (let c1 = b3\<lparr>D1 := 0x00\<rparr>;
                                c2 = (if D0 c1 = 0x0F then c1\<lparr>D0 := 0x00\<rparr> else c1);
                                c3 = c2\<lparr>D0 := D0 c2 + 1\<rparr>
                            in if 0x09 <s D0 c3 then
                                 c3\<lparr>D3 := 0x0A, D2 := 0x0A, D1 := 0x0A, D0 := 0x0A\<rparr>
                               else c3)
                         else b3)
                   else a3)
             else s1)
      in update_upper_display s2)"

definition actionPB1 :: "state \<Rightarrow> state" where
  "actionPB1 s =
     (let s1 = s\<lparr>D7 := D7 s + 1\<rparr>;
          s2 =
            (if 0x09 <s D7 s1 then
               (let a1 = s1\<lparr>D7 := 0x00\<rparr>;
                    a2 = (if D6 a1 = 0x0F then a1\<lparr>D6 := 0x00\<rparr> else a1);
                    a3 = a2\<lparr>D6 := D6 a2 + 1\<rparr>
                in if 0x09 <s D6 a3 then
                     (let b1 = a3\<lparr>D6 := 0x00\<rparr>;
                          b2 = (if D5 b1 = 0x0F then b1\<lparr>D5 := 0x00\<rparr> else b1);
                          b3 = b2\<lparr>D5 := D5 b2 + 1\<rparr>
                      in if 0x09 <s D5 b3 then
                           (let c1 = b3\<lparr>D5 := 0x00\<rparr>;
                                c2 = (if D4 c1 = 0x0F then c1\<lparr>D4 := 0x00\<rparr> else c1);
                                c3 = c2\<lparr>D4 := D4 c2 + 1\<rparr>
                            in if 0x09 <s D4 c3 then
                                 c3\<lparr>D7 := 0x0A, D6 := 0x0A, D5 := 0x0A, D4 := 0x0A\<rparr>
                               else c3)
                         else b3)
                   else a3)
             else s1)
      in update_lower_display s2)"

definition actionPB01 :: "state \<Rightarrow> state" where
  "actionPB01 s =
     (let s1 = update_upper_display (s\<lparr>D0 := 0x0F, D1 := 0x0F, D2 := 0x0F, D3 := 0x00\<rparr>)
      in update_lower_display (s1\<lparr>D4 := 0x0F, D5 := 0x0F, D6 := 0x0F, D7 := 0x00\<rparr>))"

subsection \<open>Setup and the timer interrupt\<close>

text \<open>
  The sketch's \<^verbatim>\<open>setup()\<close> also sets pin directions and the SPI and timer0 registers;
  of its effects the model keeps the pin levels it writes and the call of
  \<^verbatim>\<open>display_init\<close>.
\<close>

definition setup_sketch :: "state \<Rightarrow> state" where
  "setup_sketch s =
     display_init
       (digitalWrite SCLK LOW (digitalWrite MOSI LOW (digitalWrite CS HIGH
         (digitalWrite ISRMKR LOW s))))"

text \<open>
  The handler of the timer0 compare interrupt, one call per tick. Its input is the
  value read from \<^verbatim>\<open>PINB\<close>; bits 0 and 1 are the lines of PB0 and PB1, which read 0
  while the button is pressed. The \<^verbatim>\<open>switch\<close> has no default case.
\<close>

definition ISR_TIMER0_COMPA :: "char8 \<Rightarrow> state \<Rightarrow> state" where
  "ISR_TIMER0_COMPA PINB s =
     (let s1 = digitalWrite ISRMKR HIGH s;
          s2 = s1\<lparr>pbtns := PINB AND 0x3\<rparr>;
          s3 =
            (if pbtns s2 = 0 then s2\<lparr>counterPB01 := counterPB01 s2 + 1\<rparr>
             else if pbtns s2 = 1 then s2\<lparr>counterPB1 := counterPB1 s2 + 1\<rparr>
             else if pbtns s2 = 2 then s2\<lparr>counterPB0 := counterPB0 s2 + 1\<rparr>
             else if pbtns s2 = 3 then
               (let t1 = (if 50 < counterPB0 s2 then actionPB0 s2 else s2);
                    t2 = (if 50 < counterPB1 t1 then actionPB1 t1 else t1);
                    t3 = (if 1000 < counterPB01 t2 then actionPB01 t2 else t2)
                in t3\<lparr>counterPB0 := 0, counterPB1 := 0, counterPB01 := 0\<rparr>)
             else s2)
      in digitalWrite ISRMKR LOW s3)"

text \<open>A run of the firmware: \<^verbatim>\<open>setup()\<close>, then one tick per sampled value of \<^verbatim>\<open>PINB\<close>.\<close>

definition ticks :: "char8 list \<Rightarrow> state \<Rightarrow> state" where
  "ticks samples s = fold ISR_TIMER0_COMPA samples s"

definition run :: "char8 list \<Rightarrow> state" where
  "run samples = ticks samples (setup_sketch globals)"

section \<open>Notions used to state the properties\<close>

subsection \<open>Digit buffers and what reaches the display\<close>

type_synonym digits = "char8 \<times> char8 \<times> char8 \<times> char8"

text \<open>The digit buffers of the two counters, most significant digit first.\<close>

definition upper :: "state \<Rightarrow> digits" where
  "upper s = (D0 s, D1 s, D2 s, D3 s)"

definition lower :: "state \<Rightarrow> digits" where
  "lower s = (D4 s, D5 s, D6 s, D7 s)"

text \<open>
  One register write as \<^verbatim>\<open>display_load\<close> puts it on the wire: chip select low, the
  address byte, the data byte, chip select high.
\<close>

definition load_events :: "char8 \<Rightarrow> char8 \<Rightarrow> event list" where
  "load_events dataH dataL =
     [DigitalWrite CS LOW, SpiTransfer dataH, SpiTransfer dataL, DigitalWrite CS HIGH]"

definition upper_loads :: "digits \<Rightarrow> event list" where
  "upper_loads q = (case q of (d0, d1, d2, d3) \<Rightarrow>
     load_events 0x01 d0 @ load_events 0x02 d1 @ load_events 0x03 d2 @ load_events 0x04 d3)"

definition lower_loads :: "digits \<Rightarrow> event list" where
  "lower_loads q = (case q of (d4, d5, d6, d7) \<Rightarrow>
     load_events 0x05 d4 @ load_events 0x06 d5 @ load_events 0x07 d6 @ load_events 0x08 d7)"

text \<open>Storing four digits in a buffer and pushing them to the display.\<close>

definition put_upper :: "digits \<Rightarrow> state \<Rightarrow> state" where
  "put_upper q s = (case q of (d0, d1, d2, d3) \<Rightarrow>
     s\<lparr>D0 := d0, D1 := d1, D2 := d2, D3 := d3, trace := trace s @ upper_loads q\<rparr>)"

definition put_lower :: "digits \<Rightarrow> state \<Rightarrow> state" where
  "put_lower q s = (case q of (d4, d5, d6, d7) \<Rightarrow>
     s\<lparr>D4 := d4, D5 := d5, D6 := d6, D7 := d7, trace := trace s @ lower_loads q\<rparr>)"

text \<open>
  What the nested carries of \<^verbatim>\<open>actionPB0\<close> and \<^verbatim>\<open>actionPB1\<close> do to the four digits of
  their buffer (lemmas \<open>actionPB0_eq\<close> and \<open>actionPB1_eq\<close> below).
\<close>

definition increment_digits :: "digits \<Rightarrow> digits" where
  "increment_digits q = (case q of (d0, d1, d2, d3) \<Rightarrow>
     if 9 <s d3 + 1 then
       (let e2 = (if d2 = 0x0F then 0 else d2) + 1 in
        if 9 <s e2 then
          (let e1 = (if d1 = 0x0F then 0 else d1) + 1 in
           if 9 <s e1 then
             (let e0 = (if d0 = 0x0F then 0 else d0) + 1 in
              if 9 <s e0 then (0x0A, 0x0A, 0x0A, 0x0A) else (e0, 0, 0, 0))
           else (d0, e1, 0, 0))
        else (d0, d1, e2, 0))
     else (d0, d1, d2, d3 + 1))"

subsection \<open>Decimal rendering\<close>

text \<open>
  The display shows a count below 10000 in decimal, with blanks (code \<open>0x0F\<close>) for the
  leading zeros, and four overflow markers (code \<open>0x0A\<close>, a dash) from 10000 on.
\<close>

definition decimal4 :: "nat \<Rightarrow> digits" where
  "decimal4 n =
     (if n < 1000 then 0x0F else of_nat (n div 1000),
      if n < 100 then 0x0F else of_nat (n div 100 mod 10),
      if n < 10 then 0x0F else of_nat (n div 10 mod 10),
      of_nat (n mod 10))"

definition render :: "nat \<Rightarrow> digits" where
  "render n = (if 10000 \<le> n then (0x0A, 0x0A, 0x0A, 0x0A) else decimal4 n)"

text \<open>The same rendering from the four decimal digits of the count.\<close>

definition blanked :: "nat \<Rightarrow> nat \<Rightarrow> nat \<Rightarrow> nat \<Rightarrow> digits" where
  "blanked a b c d =
     (if a = 0 then 0x0F else of_nat a,
      if a = 0 \<and> b = 0 then 0x0F else of_nat b,
      if a = 0 \<and> b = 0 \<and> c = 0 then 0x0F else of_nat c,
      of_nat d)"

subsection \<open>Ticks\<close>

text \<open>
  A tick on which both buttons read released: the handler raises the marker pin, stores
  the sample, runs \<open>f\<close> (the actions whose thresholds are exceeded, or nothing), clears
  the three hold counters and lowers the marker pin.
\<close>

definition release_tick :: "(state \<Rightarrow> state) \<Rightarrow> state \<Rightarrow> state" where
  "release_tick f s =
     digitalWrite ISRMKR LOW
       ((f ((digitalWrite ISRMKR HIGH s)\<lparr>pbtns := 3\<rparr>))
          \<lparr>counterPB0 := 0, counterPB1 := 0, counterPB01 := 0\<rparr>)"

subsection \<open>Symbols, displayed values and logical counters\<close>

text \<open>The codes a digit may hold: the numerals, the overflow marker and the blank.\<close>

definition is_symbol :: "char8 \<Rightarrow> bool" where
  "is_symbol w \<longleftrightarrow> w \<in> {0, 1, 2, 3, 4, 5, 6, 7, 8, 9, 0x0A, 0x0F}"

text \<open>
  The number a digit buffer shows, a blank counting as zero; the overflow display
  counts as 10000, above every number that can be shown.
\<close>

definition digit_value :: "char8 \<Rightarrow> nat" where
  "digit_value w = (if w = 0x0F then 0 else unat w)"

definition displayed :: "digits \<Rightarrow> nat" where
  "displayed q = (case q of (d0, d1, d2, d3) \<Rightarrow>
     if q = (0x0A, 0x0A, 0x0A, 0x0A) then 10000
     else 1000 * digit_value d0 + 100 * digit_value d1 + 10 * digit_value d2 + digit_value d3)"

text \<open>
  The two counters of the specification, as numbers: how many Increment events each
  has received since the last Reset, followed along the ticks of a run. A tick fires
  its events when it reads both buttons released; a Reset on that tick comes last.
\<close>

fun logical_counters :: "char8 list \<Rightarrow> state \<Rightarrow> nat \<times> nat \<Rightarrow> nat \<times> nat" where
  "logical_counters [] s c = c"
| "logical_counters (PINB # ps) s (a, b) =
     logical_counters ps (ISR_TIMER0_COMPA PINB s)
       (if PINB AND 0x3 = 3 then
          (if 1000 < counterPB01 s then (0, 0)
           else (if 50 < counterPB0 s then a + 1 else a,
                 if 50 < counterPB1 s then b + 1 else b))
        else (a, b))"

section \<open>The display driver and the actions, in closed form\<close>

lemma display_load_eq:
  "display_load h l s = s\<lparr>trace := trace s @ load_events h l\<rparr>"
  by (simp add: display_load_def digitalWrite_def spi_transfer_def load_events_def)

lemma update_upper_display_eq:
  "update_upper_display s = s\<lparr>trace := trace s @ upper_loads (upper s)\<rparr>"
  by (simp add: update_upper_display_def display_load_eq Let_def upper_loads_def upper_def)

lemma update_lower_display_eq:
  "update_lower_display s = s\<lparr>trace := trace s @ lower_loads (lower s)\<rparr>"
  by (simp add: update_lower_display_def display_load_eq Let_def lower_loads_def lower_def)

lemma actionPB0_eq: "actionPB0 s = put_upper (increment_digits (upper s)) s"
  by (simp add: actionPB0_def update_upper_display_eq put_upper_def upper_loads_def
      upper_def increment_digits_def Let_def)

lemma actionPB1_eq: "actionPB1 s = put_lower (increment_digits (lower s)) s"
  by (simp add: actionPB1_def update_lower_display_eq put_lower_def lower_loads_def
      lower_def increment_digits_def Let_def)

lemma actionPB01_eq:
  "actionPB01 s = put_lower (0x0F, 0x0F, 0x0F, 0x00) (put_upper (0x0F, 0x0F, 0x0F, 0x00) s)"
  by (simp add: actionPB01_def update_upper_display_eq update_lower_display_eq
      put_upper_def put_lower_def upper_loads_def lower_loads_def upper_def lower_def)

lemma display_init_eq:
  "display_init s = put_lower (0x0F, 0x0F, 0x0F, 0x00) (put_upper (0x0F, 0x0F, 0x0F, 0x00)
     (s\<lparr>trace := trace s @ load_events 0x09 0xFF @ load_events 0x0A 0x0F
        @ load_events 0x0B 0x07 @ load_events 0x0C 0x01 @ load_events 0x0F 0x00\<rparr>))"
  by (simp add: display_init_def display_load_eq update_upper_display_eq update_lower_display_eq
      put_upper_def put_lower_def upper_loads_def lower_loads_def upper_def lower_def Let_def)

lemma upper_put_upper [simp]: "upper (put_upper q s) = q"
  by (cases q) (simp add: upper_def put_upper_def)

lemma lower_put_upper [simp]: "lower (put_upper q s) = lower s"
  by (cases q) (simp add: lower_def put_upper_def)

lemma upper_put_lower [simp]: "upper (put_lower q s) = upper s"
  by (cases q) (simp add: upper_def put_lower_def)

lemma lower_put_lower [simp]: "lower (put_lower q s) = q"
  by (cases q) (simp add: lower_def put_lower_def)

lemma trace_put_upper [simp]: "trace (put_upper q s) = trace s @ upper_loads q"
  by (cases q) (simp add: put_upper_def)

lemma trace_put_lower [simp]: "trace (put_lower q s) = trace s @ lower_loads q"
  by (cases q) (simp add: put_lower_def)

lemma upper_trace_update [simp]: "upper (s\<lparr>trace := tr\<rparr>) = upper s"
  by (simp add: upper_def)

lemma lower_trace_update [simp]: "lower (s\<lparr>trace := tr\<rparr>) = lower s"
  by (simp add: lower_def)

section \<open>Counting in decimal\<close>

lemma digit_cases:
  assumes "k < (10::nat)"
  shows "k = 0 \<or> k = 1 \<or> k = 2 \<or> k = 3 \<or> k = 4 \<or> k = 5 \<or> k = 6 \<or> k = 7 \<or> k = 8 \<or> k = 9"
  using assms by arith

lemma div_digits:
  assumes "d < (10::nat)"
  shows "(10 * m + d) mod 10 = d" and "(10 * m + d) div 10 = m"
  using assms by simp_all

lemma digits_of:
  assumes "n < (10000::nat)"
  obtains a b c d where "a < 10" "b < 10" "c < 10" "d < 10"
    and "n = 10 * (10 * (10 * a + b) + c) + d"
proof -
  let ?d = "n mod 10" and ?m2 = "n div 10"
  let ?c = "?m2 mod 10" and ?m1 = "?m2 div 10"
  let ?b = "?m1 mod 10" and ?a = "?m1 div 10"
  have "?m2 < 1000" using assms by simp
  then have "?m1 < 100" by simp
  then have "?a < 10" by simp
  moreover have "n = 10 * (10 * (10 * ?a + ?b) + ?c) + ?d" by simp
  ultimately show ?thesis using that [of ?a ?b ?c ?d] by simp
qed

lemma decimal4_blanked:
  assumes "a < 10" "b < 10" "c < 10" "d < 10"
  shows "decimal4 (10 * (10 * (10 * a + b) + c) + d) = blanked a b c d"
proof -
  define m1 where "m1 = 10 * a + b"
  define m2 where "m2 = 10 * m1 + c"
  define n where "n = 10 * m2 + d"
  have d: "n mod 10 = d" and n10: "n div 10 = m2"
    unfolding n_def using assms(4) by (rule div_digits)+
  have c: "m2 mod 10 = c" and m10: "m2 div 10 = m1"
    unfolding m2_def using assms(3) by (rule div_digits)+
  have b: "m1 mod 10 = b" and a: "m1 div 10 = a"
    unfolding m1_def using assms(2) by (rule div_digits)+
  have "n div 100 = n div 10 div 10" by (simp add: div_mult2_eq [symmetric])
  then have n100: "n div 100 = m1" by (simp add: n10 m10)
  have "n div 1000 = n div 10 div 10 div 10" by (simp add: div_mult2_eq [symmetric])
  then have n1000: "n div 1000 = a" by (simp add: n10 m10 a)
  have z1: "n < 1000 \<longleftrightarrow> a = 0"
    using assms by (auto simp: n_def m2_def m1_def)
  have z2: "n < 100 \<longleftrightarrow> a = 0 \<and> b = 0"
    using assms by (auto simp: n_def m2_def m1_def)
  have z3: "n < 10 \<longleftrightarrow> a = 0 \<and> b = 0 \<and> c = 0"
    using assms by (auto simp: n_def m2_def m1_def)
  have "decimal4 n = blanked a b c d"
    unfolding decimal4_def blanked_def by (simp only: n1000 n100 n10 b c d z1 z2 z3)
  then show ?thesis by (simp only: n_def m2_def m1_def)
qed

lemma render_blanked:
  assumes "a < 10" "b < 10" "c < 10" "d < 10"
  shows "render (10 * (10 * (10 * a + b) + c) + d) = blanked a b c d"
proof -
  have "\<not> 10000 \<le> 10 * (10 * (10 * a + b) + c) + d" using assms by simp
  then show ?thesis unfolding render_def using assms by (simp only: decimal4_blanked if_False)
qed

lemma increment_overflow:
  "increment_digits (0x0A, 0x0A, 0x0A, 0x0A) = (0x0A, 0x0A, 0x0A, 0x0A)"
  by (simp add: increment_digits_def word_sless_alt)

lemma increment_units:
  assumes "d < 9"
  shows "increment_digits (blanked a b c d) = blanked a b c (Suc d)"
proof -
  have "d < 10" using assms by simp
  from digit_cases [OF this] assms show ?thesis
    by (elim disjE) (simp_all add: blanked_def increment_digits_def word_sless_alt)
qed

lemma increment_tens:
  assumes "c < 9"
  shows "increment_digits (blanked a b c 9) = blanked a b (Suc c) 0"
proof -
  have "c < 10" using assms by simp
  from digit_cases [OF this] assms show ?thesis
    by (elim disjE) (simp_all add: blanked_def increment_digits_def word_sless_alt)
qed

lemma increment_hundreds:
  assumes "b < 9"
  shows "increment_digits (blanked a b 9 9) = blanked a (Suc b) 0 0"
proof -
  have "b < 10" using assms by simp
  from digit_cases [OF this] assms show ?thesis
    by (elim disjE) (simp_all add: blanked_def increment_digits_def word_sless_alt)
qed

lemma increment_thousands:
  assumes "a < 9"
  shows "increment_digits (blanked a 9 9 9) = blanked (Suc a) 0 0 0"
proof -
  have "a < 10" using assms by simp
  from digit_cases [OF this] assms show ?thesis
    by (elim disjE) (simp_all add: blanked_def increment_digits_def word_sless_alt)
qed

lemma increment_9999: "increment_digits (blanked 9 9 9 9) = (0x0A, 0x0A, 0x0A, 0x0A)"
  by (simp add: blanked_def increment_digits_def word_sless_alt)

lemma increment_render: "increment_digits (render n) = render (Suc n)"
proof (cases "n < 10000")
  case False
  then show ?thesis by (simp add: render_def increment_overflow)
next
  case True
  then obtain a b c d where lt: "a < 10" "b < 10" "c < 10" "d < 10"
    and n: "n = 10 * (10 * (10 * a + b) + c) + d"
    by (rule digits_of)
  consider (units) "d < 9" | (tens) "d = 9" "c < 9" | (hundreds) "d = 9" "c = 9" "b < 9"
    | (thousands) "d = 9" "c = 9" "b = 9" "a < 9" | (full) "d = 9" "c = 9" "b = 9" "a = 9"
    using lt by linarith
  then show ?thesis
  proof cases
    case units
    have "Suc n = 10 * (10 * (10 * a + b) + c) + Suc d"
      by (simp add: n)
    moreover have "Suc d < 10" using units by simp
    ultimately have "render (Suc n) = blanked a b c (Suc d)"
      using lt by (simp only: render_blanked)
    moreover have "render n = blanked a b c d"
      unfolding n using lt by (rule render_blanked)
    ultimately show ?thesis using units by (simp only: increment_units)
  next
    case tens
    have "Suc n = 10 * (10 * (10 * a + b) + Suc c) + 0"
      by (simp add: n tens)
    moreover have "Suc c < 10" using tens by simp
    ultimately have "render (Suc n) = blanked a b (Suc c) 0"
      using lt by (simp only: render_blanked)
    moreover have "render n = blanked a b c 9"
      using render_blanked [OF lt] by (simp only: n tens)
    ultimately show ?thesis using tens by (simp only: increment_tens)
  next
    case hundreds
    have "Suc n = 10 * (10 * (10 * a + Suc b) + 0) + 0"
      by (simp add: n hundreds)
    moreover have "Suc b < 10" "(0::nat) < 10" using hundreds by simp_all
    ultimately have "render (Suc n) = blanked a (Suc b) 0 0"
      using lt by (simp only: render_blanked)
    moreover have "render n = blanked a b 9 9"
      using render_blanked [OF lt] by (simp only: n hundreds)
    ultimately show ?thesis using hundreds by (simp only: increment_hundreds)
  next
    case thousands
    have "Suc n = 10 * (10 * (10 * Suc a + 0) + 0) + 0"
      by (simp add: n thousands)
    moreover have "Suc a < 10" "(0::nat) < 10" using thousands by simp_all
    ultimately have "render (Suc n) = blanked (Suc a) 0 0 0"
      by (simp only: render_blanked)
    moreover have "render n = blanked a 9 9 9"
      using render_blanked [OF lt] by (simp only: n thousands)
    ultimately show ?thesis using thousands by (simp only: increment_thousands)
  next
    case full
    have "Suc n = 10000" by (simp add: n full)
    then have "render (Suc n) = (0x0A, 0x0A, 0x0A, 0x0A)" by (simp add: render_def)
    moreover have "render n = blanked 9 9 9 9"
      using render_blanked [OF lt] by (simp only: n full)
    ultimately show ?thesis by (simp only: increment_9999)
  qed
qed

lemma render_0: "render 0 = (0x0F, 0x0F, 0x0F, 0x00)"
  by (simp add: render_def decimal4_def)

lemma upper_actionPB0 [simp]: "upper (actionPB0 s) = increment_digits (upper s)"
  by (simp add: actionPB0_eq)

lemma lower_actionPB0 [simp]: "lower (actionPB0 s) = lower s"
  by (simp add: actionPB0_eq)

lemma upper_actionPB1 [simp]: "upper (actionPB1 s) = upper s"
  by (simp add: actionPB1_eq)

lemma lower_actionPB1 [simp]: "lower (actionPB1 s) = increment_digits (lower s)"
  by (simp add: actionPB1_eq)

lemma upper_display_init [simp]: "upper (display_init s) = (0x0F, 0x0F, 0x0F, 0x00)"
  by (simp add: display_init_eq)

lemma lower_display_init [simp]: "lower (display_init s) = (0x0F, 0x0F, 0x0F, 0x00)"
  by (simp add: display_init_eq)

lemma upper_funpow_actionPB0:
  assumes "upper s = render k"
  shows "upper ((actionPB0 ^^ n) s) = render (k + n)"
  using assms by (induction n) (simp_all add: increment_render)

lemma lower_funpow_actionPB0: "lower ((actionPB0 ^^ n) s) = lower s"
  by (induction n) simp_all

lemma lower_funpow_actionPB1:
  assumes "lower s = render k"
  shows "lower ((actionPB1 ^^ n) s) = render (k + n)"
  using assms by (induction n) (simp_all add: increment_render)

lemma upper_funpow_actionPB1: "upper ((actionPB1 ^^ n) s) = upper s"
  by (induction n) simp_all

section \<open>The timer interrupt, case by case\<close>

lemma pbtns_cases:
  fixes PINB :: char8
  shows "PINB AND 3 = 0 \<or> PINB AND 3 = 1 \<or> PINB AND 3 = 2 \<or> PINB AND 3 = 3"
proof -
  have "PINB AND 3 \<le> 3" by (rule word_and_le1)
  then have "unat (PINB AND 3) \<le> 3" by (simp add: word_le_nat_alt)
  then have "unat (PINB AND 3) = 0 \<or> unat (PINB AND 3) = 1 \<or> unat (PINB AND 3) = 2
      \<or> unat (PINB AND 3) = 3" by arith
  then show ?thesis
    by (elim disjE) (simp_all add: word_unat_eq_iff)
qed

lemma counters_put_upper [simp]:
  "counterPB0 (put_upper q s) = counterPB0 s"
  "counterPB1 (put_upper q s) = counterPB1 s"
  "counterPB01 (put_upper q s) = counterPB01 s"
  "pbtns (put_upper q s) = pbtns s"
  by (cases q; simp add: put_upper_def)+

lemma counters_put_lower [simp]:
  "counterPB0 (put_lower q s) = counterPB0 s"
  "counterPB1 (put_lower q s) = counterPB1 s"
  "counterPB01 (put_lower q s) = counterPB01 s"
  "pbtns (put_lower q s) = pbtns s"
  by (cases q; simp add: put_lower_def)+

lemma upper_frame [simp]:
  "upper (s\<lparr>pbtns := x\<rparr>) = upper s"
  "upper (s\<lparr>counterPB0 := c\<rparr>) = upper s"
  "upper (s\<lparr>counterPB1 := c\<rparr>) = upper s"
  "upper (s\<lparr>counterPB01 := c\<rparr>) = upper s"
  by (simp_all add: upper_def)

lemma lower_frame [simp]:
  "lower (s\<lparr>pbtns := x\<rparr>) = lower s"
  "lower (s\<lparr>counterPB0 := c\<rparr>) = lower s"
  "lower (s\<lparr>counterPB1 := c\<rparr>) = lower s"
  "lower (s\<lparr>counterPB01 := c\<rparr>) = lower s"
  by (simp_all add: lower_def)

lemma ISR_released:
  assumes "PINB AND 3 = 3"
  shows "ISR_TIMER0_COMPA PINB s =
    release_tick ((if 1000 < counterPB01 s then actionPB01 else id)
      \<circ> (if 50 < counterPB1 s then actionPB1 else id)
      \<circ> (if 50 < counterPB0 s then actionPB0 else id)) s"
  using assms
  by (simp add: ISR_TIMER0_COMPA_def release_tick_def digitalWrite_def Let_def
      actionPB0_eq actionPB1_eq actionPB01_eq)

lemma ISR_both_pressed:
  assumes "PINB AND 3 = 0"
  shows "ISR_TIMER0_COMPA PINB s = s\<lparr>pbtns := 0, counterPB01 := counterPB01 s + 1,
     trace := trace s @ [DigitalWrite ISRMKR HIGH, DigitalWrite ISRMKR LOW]\<rparr>"
  using assms by (simp add: ISR_TIMER0_COMPA_def digitalWrite_def Let_def)

lemma ISR_only_PB1:
  assumes "PINB AND 3 = 1"
  shows "ISR_TIMER0_COMPA PINB s = s\<lparr>pbtns := 1, counterPB1 := counterPB1 s + 1,
     trace := trace s @ [DigitalWrite ISRMKR HIGH, DigitalWrite ISRMKR LOW]\<rparr>"
  using assms by (simp add: ISR_TIMER0_COMPA_def digitalWrite_def Let_def)

lemma ISR_only_PB0:
  assumes "PINB AND 3 = 2"
  shows "ISR_TIMER0_COMPA PINB s = s\<lparr>pbtns := 2, counterPB0 := counterPB0 s + 1,
     trace := trace s @ [DigitalWrite ISRMKR HIGH, DigitalWrite ISRMKR LOW]\<rparr>"
  using assms by (simp add: ISR_TIMER0_COMPA_def digitalWrite_def Let_def)

lemma counters_release_tick:
  "counterPB0 (release_tick f s) = 0"
  "counterPB1 (release_tick f s) = 0"
  "counterPB01 (release_tick f s) = 0"
  by (simp_all add: release_tick_def digitalWrite_def)

lemma ticks_Nil [simp]: "ticks [] s = s"
  by (simp add: ticks_def)

lemma ticks_Cons [simp]: "ticks (p # ps) s = ticks ps (ISR_TIMER0_COMPA p s)"
  by (simp add: ticks_def)

lemma counters_setup [simp]:
  "counterPB0 (setup_sketch globals) = 0"
  "counterPB1 (setup_sketch globals) = 0"
  "counterPB01 (setup_sketch globals) = 0"
  by (simp_all add: setup_sketch_def display_init_eq digitalWrite_def globals_def)

subsection \<open>How far the hold counters can go\<close>

lemma unat_Suc_le: "unat (c + 1 :: uint16) \<le> Suc (unat c)"
  by (simp add: unat_word_ariths)

lemma uint16_le: "unat (c :: uint16) \<le> 65535"
proof -
  have "unat c < 2 ^ LENGTH(16)" by (rule unsigned_less)
  then show ?thesis by simp
qed

lemma ISR_counters_le:
  "unat (counterPB0 (ISR_TIMER0_COMPA p s)) \<le> unat (counterPB0 s) + 1 \<and>
   unat (counterPB1 (ISR_TIMER0_COMPA p s)) \<le> unat (counterPB1 s) + 1 \<and>
   unat (counterPB01 (ISR_TIMER0_COMPA p s)) \<le> unat (counterPB01 s) + 1"
proof -
  consider "p AND 3 = 0" | "p AND 3 = 1" | "p AND 3 = 2" | "p AND 3 = 3"
    using pbtns_cases [of p] by blast
  then show ?thesis
  proof cases
    case 1
    then show ?thesis by (simp add: ISR_both_pressed unat_Suc_le)
  next
    case 2
    then show ?thesis by (simp add: ISR_only_PB1 unat_Suc_le)
  next
    case 3
    then show ?thesis by (simp add: ISR_only_PB0 unat_Suc_le)
  next
    case 4
    then show ?thesis by (simp only: ISR_released counters_release_tick) simp
  qed
qed

lemma ticks_counters_le:
  "unat (counterPB0 (ticks ps s)) \<le> unat (counterPB0 s) + length ps"
  "unat (counterPB1 (ticks ps s)) \<le> unat (counterPB1 s) + length ps"
  "unat (counterPB01 (ticks ps s)) \<le> unat (counterPB01 s) + length ps"
proof (induction ps arbitrary: s)
  case Nil
  { case 1 show ?case by simp }
  { case 2 show ?case by simp }
  { case 3 show ?case by simp }
next
  case (Cons p ps)
  { case 1 show ?case
      using Cons.IH(1) [of "ISR_TIMER0_COMPA p s"] ISR_counters_le [of p s] by simp }
  { case 2 show ?case
      using Cons.IH(2) [of "ISR_TIMER0_COMPA p s"] ISR_counters_le [of p s] by simp }
  { case 3 show ?case
      using Cons.IH(3) [of "ISR_TIMER0_COMPA p s"] ISR_counters_le [of p s] by simp }
qed

subsection \<open>Holding a button combination for a number of ticks\<close>

lemma ticks_append: "ticks (xs @ ys) s = ticks ys (ticks xs s)"
  by (simp add: ticks_def)

lemma hold_both:
  "counterPB0 (ticks (replicate n 0) s) = counterPB0 s \<and>
   counterPB1 (ticks (replicate n 0) s) = counterPB1 s \<and>
   counterPB01 (ticks (replicate n 0) s) = counterPB01 s + of_nat n"
  by (induction n arbitrary: s) (simp_all add: ISR_both_pressed)

lemma hold_PB1:
  "counterPB0 (ticks (replicate n 1) s) = counterPB0 s \<and>
   counterPB1 (ticks (replicate n 1) s) = counterPB1 s + of_nat n \<and>
   counterPB01 (ticks (replicate n 1) s) = counterPB01 s"
  by (induction n arbitrary: s) (simp_all add: ISR_only_PB1)

lemma hold_PB0:
  "counterPB0 (ticks (replicate n 2) s) = counterPB0 s + of_nat n \<and>
   counterPB1 (ticks (replicate n 2) s) = counterPB1 s \<and>
   counterPB01 (ticks (replicate n 2) s) = counterPB01 s"
  by (induction n arbitrary: s) (simp_all add: ISR_only_PB0)

lemma run_hold:
  "counterPB0 (run (replicate n 2)) = of_nat n"
  "counterPB1 (run (replicate n 2)) = 0"
  "counterPB01 (run (replicate n 2)) = 0"
  "counterPB0 (run (replicate n 1)) = 0"
  "counterPB1 (run (replicate n 1)) = of_nat n"
  "counterPB01 (run (replicate n 1)) = 0"
  "counterPB0 (run (replicate n 0)) = 0"
  "counterPB1 (run (replicate n 0)) = 0"
  "counterPB01 (run (replicate n 0)) = of_nat n"
  unfolding run_def by (simp_all add: hold_PB0 hold_PB1 hold_both)

text \<open>
  PB0 alone for 51 ticks, then PB1 as well for 1001 ticks, then PB1 alone for 51 ticks:
  all three hold counters are above their thresholds.
\<close>

lemma run_carry_over:
  "counterPB0 (run (replicate 51 2 @ replicate 1001 0 @ replicate 51 1)) = 51 \<and>
   counterPB1 (run (replicate 51 2 @ replicate 1001 0 @ replicate 51 1)) = 51 \<and>
   counterPB01 (run (replicate 51 2 @ replicate 1001 0 @ replicate 51 1)) = 1001"
  unfolding run_def ticks_append
  by (simp only: hold_PB0 hold_PB1 hold_both counters_setup) simp

section \<open>The digit buffers along a run\<close>

lemma buffers_ISR:
  assumes "upper s = render a" "lower s = render b"
  shows "upper (ISR_TIMER0_COMPA PINB s) =
           render (if PINB AND 0x3 = 3 then
                     (if 1000 < counterPB01 s then 0
                      else if 50 < counterPB0 s then a + 1 else a)
                   else a) \<and>
         lower (ISR_TIMER0_COMPA PINB s) =
           render (if PINB AND 0x3 = 3 then
                     (if 1000 < counterPB01 s then 0
                      else if 50 < counterPB1 s then b + 1 else b)
                   else b)"
proof -
  consider "PINB AND 3 = 0" | "PINB AND 3 = 1" | "PINB AND 3 = 2" | "PINB AND 3 = 3"
    using pbtns_cases [of PINB] by blast
  then show ?thesis
  proof cases
    case 1
    then show ?thesis using assms by (simp add: ISR_both_pressed)
  next
    case 2
    then show ?thesis using assms by (simp add: ISR_only_PB1)
  next
    case 3
    then show ?thesis using assms by (simp add: ISR_only_PB0)
  next
    case 4
    then show ?thesis using assms
      by (simp add: ISR_released release_tick_def digitalWrite_def increment_render render_0
          actionPB01_eq)
  qed
qed

lemma buffers_ticks:
  assumes "upper s = render a" "lower s = render b"
  shows "upper (ticks ps s) = render (fst (logical_counters ps s (a, b))) \<and>
         lower (ticks ps s) = render (snd (logical_counters ps s (a, b)))"
  using assms
proof (induction ps arbitrary: s a b)
  case Nil
  then show ?case by simp
next
  case (Cons p ps)
  from buffers_ISR [OF Cons.prems, of p]
  show ?case by (auto simp add: Cons.IH split: if_splits)
qed

lemma logical_counters_hold:
  assumes "PINB AND 0x3 \<noteq> 3"
  shows "logical_counters (replicate n PINB) s c = c"
  using assms by (induction n arbitrary: s) (cases c; simp)+

lemma logical_counters_append:
  "logical_counters (xs @ ys) s c = logical_counters ys (ticks xs s) (logical_counters xs s c)"
proof (induction xs arbitrary: s c)
  case Nil
  show ?case by simp
next
  case (Cons p ps)
  show ?case by (cases c) (simp add: Cons.IH)
qed

lemma is_symbol_digit:
  assumes "k < 10"
  shows "is_symbol (of_nat k)"
  using digit_cases [OF assms] by (elim disjE) (simp_all add: is_symbol_def)

lemma is_symbol_render:
  assumes "render n = (d0, d1, d2, d3)"
  shows "is_symbol d0 \<and> is_symbol d1 \<and> is_symbol d2 \<and> is_symbol d3"
proof (cases "10000 \<le> n")
  case True
  then show ?thesis using assms by (auto simp add: render_def is_symbol_def)
next
  case False
  then have "n div 1000 < 10" by simp
  moreover have "n div 100 mod 10 < 10" "n div 10 mod 10 < 10" "n mod 10 < 10" by simp_all
  moreover have "is_symbol 0x0F" by (simp add: is_symbol_def)
  ultimately show ?thesis
    using assms False by (auto simp add: render_def decimal4_def is_symbol_digit)
qed

subsection \<open>The value on display\<close>

lemma digit_value_of_nat:
  assumes "k < 10"
  shows "digit_value (of_nat k) = k" and "(of_nat k :: char8) \<noteq> 0x0A"
  using digit_cases [OF assms] by (elim disjE; simp add: digit_value_def)+

lemma digit_value_blank:
  "digit_value (if z then 0x0F else of_nat k) = (if z then 0 else digit_value (of_nat k))"
  by (simp add: digit_value_def)

lemma displayed_blanked:
  assumes "a < 10" "b < 10" "c < 10" "d < 10"
  shows "displayed (blanked a b c d) = 10 * (10 * (10 * a + b) + c) + d"
  using assms
  by (auto simp add: displayed_def blanked_def digit_value_blank digit_value_of_nat)

lemma displayed_render: "displayed (render n) = min n 10000"
proof (cases "n < 10000")
  case False
  then show ?thesis by (simp add: render_def displayed_def)
next
  case True
  then obtain a b c d where lt: "a < 10" "b < 10" "c < 10" "d < 10"
    and n: "n = 10 * (10 * (10 * a + b) + c) + d"
    by (rule digits_of)
  have "displayed (render n) = n"
    unfolding n using lt by (simp only: render_blanked displayed_blanked)
  then show ?thesis using True by simp
qed

section \<open>Properties of the specification\<close>

text \<open>
  C1. After \<open>n\<close> calls of \<^verbatim>\<open>actionPB0\<close> (Increment of counter A) on the state that
  \<^verbatim>\<open>display_init\<close> leaves, with no reset in between, the upper digit buffer holds \<open>n\<close> in
  decimal with blanks for the leading zeros as long as \<open>n \<le> 9999\<close>, and four overflow
  markers from \<open>n = 10000\<close> on; the lower digit buffer still holds blank, blank, blank,
  zero. As this holds for every \<open>n\<close>, it holds after every prefix of the sequence.
\<close>

theorem increment_A_displays_count:
  "(n \<le> 9999 \<longrightarrow> upper ((actionPB0 ^^ n) (display_init s)) = decimal4 n) \<and>
   (10000 \<le> n \<longrightarrow> upper ((actionPB0 ^^ n) (display_init s)) = (0x0A, 0x0A, 0x0A, 0x0A)) \<and>
   lower ((actionPB0 ^^ n) (display_init s)) = (0x0F, 0x0F, 0x0F, 0x00)"
proof -
  have "upper (display_init s) = render 0" by (simp add: render_0)
  then have "upper ((actionPB0 ^^ n) (display_init s)) = render (0 + n)"
    by (rule upper_funpow_actionPB0)
  then show ?thesis by (simp add: render_def lower_funpow_actionPB0)
qed

theorem increment_A_displays_count_witness:
  "upper ((actionPB0 ^^ 407) (display_init globals)) = (0x0F, 4, 0, 7) \<and>
   upper ((actionPB0 ^^ 10000) (display_init globals)) = (0x0A, 0x0A, 0x0A, 0x0A) \<and>
   lower ((actionPB0 ^^ 407) (display_init globals)) = (0x0F, 0x0F, 0x0F, 0x00)"
  using increment_A_displays_count [of 407 globals]
    increment_A_displays_count [of 10000 globals]
  by (simp add: decimal4_def)

text \<open>
  C2. Increment saturates. On a buffer that shows four overflow markers, \<^verbatim>\<open>actionPB0\<close>
  (for the upper buffer) and \<^verbatim>\<open>actionPB1\<close> (for the lower one) leave four overflow
  markers. On a buffer that shows a count, neither makes the displayed value smaller.
  From the initial display, 9999 increments show 9999, one more shows the overflow
  markers, and so do 1000 more after that.
\<close>

theorem increment_saturates:
  "(upper s = (0x0A, 0x0A, 0x0A, 0x0A) \<longrightarrow> upper (actionPB0 s) = (0x0A, 0x0A, 0x0A, 0x0A)) \<and>
   (lower s = (0x0A, 0x0A, 0x0A, 0x0A) \<longrightarrow> lower (actionPB1 s) = (0x0A, 0x0A, 0x0A, 0x0A)) \<and>
   (upper s = render n \<longrightarrow> displayed (upper s) \<le> displayed (upper (actionPB0 s))) \<and>
   (lower s = render n \<longrightarrow> displayed (lower s) \<le> displayed (lower (actionPB1 s))) \<and>
   upper ((actionPB0 ^^ 9999) (display_init s0)) = (9, 9, 9, 9) \<and>
   upper ((actionPB0 ^^ 10000) (display_init s0)) = (0x0A, 0x0A, 0x0A, 0x0A) \<and>
   upper ((actionPB0 ^^ 1000) ((actionPB0 ^^ 10000) (display_init s0)))
     = (0x0A, 0x0A, 0x0A, 0x0A) \<and>
   lower ((actionPB1 ^^ 9999) (display_init s0)) = (9, 9, 9, 9) \<and>
   lower ((actionPB1 ^^ 10000) (display_init s0)) = (0x0A, 0x0A, 0x0A, 0x0A) \<and>
   lower ((actionPB1 ^^ 1000) ((actionPB1 ^^ 10000) (display_init s0)))
     = (0x0A, 0x0A, 0x0A, 0x0A)"
proof -
  have u: "upper ((actionPB0 ^^ k) (display_init s0)) = render (0 + k)" for k
    by (rule upper_funpow_actionPB0) (simp add: render_0)
  have l: "lower ((actionPB1 ^^ k) (display_init s0)) = render (0 + k)" for k
    by (rule lower_funpow_actionPB1) (simp add: render_0)
  have r9999: "render 9999 = (9, 9, 9, 9)" by (simp add: render_def decimal4_def)
  have r10000: "render 10000 = (0x0A, 0x0A, 0x0A, 0x0A)" by (simp add: render_def)
  have r11000: "render 11000 = (0x0A, 0x0A, 0x0A, 0x0A)" by (simp add: render_def)
  have u2: "upper ((actionPB0 ^^ 1000) ((actionPB0 ^^ 10000) (display_init s0)))
      = render (10000 + 1000)"
    by (rule upper_funpow_actionPB0) (simp only: u add_0)
  have l2: "lower ((actionPB1 ^^ 1000) ((actionPB1 ^^ 10000) (display_init s0)))
      = render (10000 + 1000)"
    by (rule lower_funpow_actionPB1) (simp only: l add_0)
  have mono: "displayed (render n) \<le> displayed (increment_digits (render n))"
    by (simp add: increment_render displayed_render)
  have a: "upper s = (0x0A, 0x0A, 0x0A, 0x0A) \<longrightarrow> upper (actionPB0 s) = (0x0A, 0x0A, 0x0A, 0x0A)"
    by (simp add: increment_overflow)
  have b: "lower s = (0x0A, 0x0A, 0x0A, 0x0A) \<longrightarrow> lower (actionPB1 s) = (0x0A, 0x0A, 0x0A, 0x0A)"
    by (simp add: increment_overflow)
  have c: "upper s = render n \<longrightarrow> displayed (upper s) \<le> displayed (upper (actionPB0 s))"
    using mono by simp
  have d: "lower s = render n \<longrightarrow> displayed (lower s) \<le> displayed (lower (actionPB1 s))"
    using mono by simp
  have e: "upper ((actionPB0 ^^ 9999) (display_init s0)) = (9, 9, 9, 9)"
    "upper ((actionPB0 ^^ 10000) (display_init s0)) = (0x0A, 0x0A, 0x0A, 0x0A)"
    "lower ((actionPB1 ^^ 9999) (display_init s0)) = (9, 9, 9, 9)"
    "lower ((actionPB1 ^^ 10000) (display_init s0)) = (0x0A, 0x0A, 0x0A, 0x0A)"
    by (simp_all only: u l add_0 r9999 r10000)
  have f: "upper ((actionPB0 ^^ 1000) ((actionPB0 ^^ 10000) (display_init s0)))
     = (0x0A, 0x0A, 0x0A, 0x0A)"
    "lower ((actionPB1 ^^ 1000) ((actionPB1 ^^ 10000) (display_init s0)))
     = (0x0A, 0x0A, 0x0A, 0x0A)"
    using u2 l2 r11000 by simp_all
  from a b c d e f show ?thesis by (intro conjI)
qed

theorem increment_saturates_witness:
  "upper (actionPB0 ((actionPB0 ^^ 10000) (display_init globals))) = (0x0A, 0x0A, 0x0A, 0x0A) \<and>
   lower (actionPB1 ((actionPB1 ^^ 10000) (display_init globals))) = (0x0A, 0x0A, 0x0A, 0x0A) \<and>
   displayed (upper ((actionPB0 ^^ 41) (display_init globals)))
     \<le> displayed (upper (actionPB0 ((actionPB0 ^^ 41) (display_init globals)))) \<and>
   displayed (lower ((actionPB1 ^^ 41) (display_init globals)))
     \<le> displayed (lower (actionPB1 ((actionPB1 ^^ 41) (display_init globals))))"
proof -
  have u: "upper ((actionPB0 ^^ k) (display_init globals)) = render (0 + k)" for k
    by (rule upper_funpow_actionPB0) (simp add: render_0)
  have l: "lower ((actionPB1 ^^ k) (display_init globals)) = render (0 + k)" for k
    by (rule lower_funpow_actionPB1) (simp add: render_0)
  have "upper ((actionPB0 ^^ 10000) (display_init globals)) = (0x0A, 0x0A, 0x0A, 0x0A)"
    by (simp only: u add_0) (simp add: render_def)
  moreover have "lower ((actionPB1 ^^ 10000) (display_init globals)) = (0x0A, 0x0A, 0x0A, 0x0A)"
    by (simp only: l add_0) (simp add: render_def)
  moreover have "upper ((actionPB0 ^^ 41) (display_init globals)) = render 41"
    by (simp only: u add_0)
  moreover have "lower ((actionPB1 ^^ 41) (display_init globals)) = render 41"
    by (simp only: l add_0)
  ultimately show ?thesis
    using increment_saturates [of "(actionPB0 ^^ 10000) (display_init globals)" 0 globals]
      increment_saturates [of "(actionPB1 ^^ 10000) (display_init globals)" 0 globals]
      increment_saturates [of "(actionPB0 ^^ 41) (display_init globals)" 41 globals]
      increment_saturates [of "(actionPB1 ^^ 41) (display_init globals)" 41 globals]
    by blast
qed

text \<open>
  C3. On a tick that reads both buttons released, whatever the other two hold counters
  are: with the PB0 hold counter at exactly 50 the handler does not call \<^verbatim>\<open>actionPB0\<close>,
  and at 51 it does; with the PB1 hold counter at exactly 50 it does not call
  \<^verbatim>\<open>actionPB1\<close>, and at 51 it does; with the combined hold counter at exactly 1000 it
  does not call \<^verbatim>\<open>actionPB01\<close>, and at 1001 it does.
\<close>

theorem thresholds_are_strict:
  assumes "PINB AND 0x3 = 3"
  shows
   "(counterPB0 s = 50 \<longrightarrow> ISR_TIMER0_COMPA PINB s =
       release_tick ((if 1000 < counterPB01 s then actionPB01 else id)
         \<circ> (if 50 < counterPB1 s then actionPB1 else id)) s) \<and>
    (counterPB0 s = 51 \<longrightarrow> ISR_TIMER0_COMPA PINB s =
       release_tick ((if 1000 < counterPB01 s then actionPB01 else id)
         \<circ> (if 50 < counterPB1 s then actionPB1 else id) \<circ> actionPB0) s) \<and>
    (counterPB1 s = 50 \<longrightarrow> ISR_TIMER0_COMPA PINB s =
       release_tick ((if 1000 < counterPB01 s then actionPB01 else id)
         \<circ> (if 50 < counterPB0 s then actionPB0 else id)) s) \<and>
    (counterPB1 s = 51 \<longrightarrow> ISR_TIMER0_COMPA PINB s =
       release_tick ((if 1000 < counterPB01 s then actionPB01 else id)
         \<circ> actionPB1 \<circ> (if 50 < counterPB0 s then actionPB0 else id)) s) \<and>
    (counterPB01 s = 1000 \<longrightarrow> ISR_TIMER0_COMPA PINB s =
       release_tick ((if 50 < counterPB1 s then actionPB1 else id)
         \<circ> (if 50 < counterPB0 s then actionPB0 else id)) s) \<and>
    (counterPB01 s = 1001 \<longrightarrow> ISR_TIMER0_COMPA PINB s =
       release_tick (actionPB01 \<circ> (if 50 < counterPB1 s then actionPB1 else id)
         \<circ> (if 50 < counterPB0 s then actionPB0 else id)) s)"
  by (simp add: ISR_released [OF assms])

theorem thresholds_are_strict_witness:
  "ISR_TIMER0_COMPA 3 (run (replicate 50 2)) = release_tick id (run (replicate 50 2)) \<and>
   ISR_TIMER0_COMPA 3 (run (replicate 51 2)) = release_tick actionPB0 (run (replicate 51 2)) \<and>
   ISR_TIMER0_COMPA 3 (run (replicate 50 1)) = release_tick id (run (replicate 50 1)) \<and>
   ISR_TIMER0_COMPA 3 (run (replicate 51 1)) = release_tick actionPB1 (run (replicate 51 1)) \<and>
   ISR_TIMER0_COMPA 3 (run (replicate 1000 0)) = release_tick id (run (replicate 1000 0)) \<and>
   ISR_TIMER0_COMPA 3 (run (replicate 1001 0))
     = release_tick actionPB01 (run (replicate 1001 0))"
  using thresholds_are_strict [of 3 "run (replicate 50 2)"]
    thresholds_are_strict [of 3 "run (replicate 51 2)"]
    thresholds_are_strict [of 3 "run (replicate 50 1)"]
    thresholds_are_strict [of 3 "run (replicate 51 1)"]
    thresholds_are_strict [of 3 "run (replicate 1000 0)"]
    thresholds_are_strict [of 3 "run (replicate 1001 0)"]
  by (simp add: run_hold)

text \<open>
  C4. After a tick that reads both buttons released, the three hold counters are zero,
  from whatever state the tick started and whichever actions it called.
\<close>

theorem release_clears_hold_counters:
  assumes "PINB AND 0x3 = 3"
  shows "counterPB0 (ISR_TIMER0_COMPA PINB s) = 0 \<and>
         counterPB1 (ISR_TIMER0_COMPA PINB s) = 0 \<and>
         counterPB01 (ISR_TIMER0_COMPA PINB s) = 0"
  using assms by (simp add: ISR_released counters_release_tick)

theorem release_clears_hold_counters_witness:
  "counterPB0 (ISR_TIMER0_COMPA 3
      (run (replicate 51 2 @ replicate 1001 0 @ replicate 51 1))) = 0 \<and>
   counterPB1 (ISR_TIMER0_COMPA 3
      (run (replicate 51 2 @ replicate 1001 0 @ replicate 51 1))) = 0 \<and>
   counterPB01 (ISR_TIMER0_COMPA 3
      (run (replicate 51 2 @ replicate 1001 0 @ replicate 51 1))) = 0"
proof -
  have "(3 :: char8) AND 0x3 = 3" by simp
  then show ?thesis by (rule release_clears_hold_counters)
qed

text \<open>
  C5. A tick that reads both buttons pressed increments the combined hold counter (the
  \<^verbatim>\<open>++\<close> of a 16-bit \<^verbatim>\<open>unsigned int\<close>) and leaves the two single-button hold counters
  and both digit buffers as they were. A tick that reads anything else does not
  increment it: the combined hold counter keeps its value when one button is pressed,
  and is cleared when both are released.
\<close>

theorem both_pressed_frame:
  "(PINB AND 0x3 = 0 \<longrightarrow>
      counterPB01 (ISR_TIMER0_COMPA PINB s) = counterPB01 s + 1 \<and>
      counterPB0 (ISR_TIMER0_COMPA PINB s) = counterPB0 s \<and>
      counterPB1 (ISR_TIMER0_COMPA PINB s) = counterPB1 s \<and>
      upper (ISR_TIMER0_COMPA PINB s) = upper s \<and>
      lower (ISR_TIMER0_COMPA PINB s) = lower s) \<and>
   (PINB AND 0x3 \<noteq> 0 \<longrightarrow>
      counterPB01 (ISR_TIMER0_COMPA PINB s) = (if PINB AND 0x3 = 3 then 0 else counterPB01 s))"
proof -
  consider "PINB AND 3 = 0" | "PINB AND 3 = 1" | "PINB AND 3 = 2" | "PINB AND 3 = 3"
    using pbtns_cases [of PINB] by blast
  then show ?thesis
  proof cases
    case 1
    then show ?thesis by (simp add: ISR_both_pressed upper_def lower_def)
  next
    case 2
    then show ?thesis by (simp add: ISR_only_PB1)
  next
    case 3
    then show ?thesis by (simp add: ISR_only_PB0)
  next
    case 4
    then show ?thesis by (simp add: ISR_released counters_release_tick)
  qed
qed

theorem both_pressed_frame_witness:
  "counterPB01 (ISR_TIMER0_COMPA 0 (run (replicate 7 2)))
     = counterPB01 (run (replicate 7 2)) + 1 \<and>
   counterPB0 (ISR_TIMER0_COMPA 0 (run (replicate 7 2))) = counterPB0 (run (replicate 7 2)) \<and>
   counterPB1 (ISR_TIMER0_COMPA 0 (run (replicate 7 2))) = counterPB1 (run (replicate 7 2)) \<and>
   upper (ISR_TIMER0_COMPA 0 (run (replicate 7 2))) = upper (run (replicate 7 2)) \<and>
   lower (ISR_TIMER0_COMPA 0 (run (replicate 7 2))) = lower (run (replicate 7 2)) \<and>
   counterPB01 (ISR_TIMER0_COMPA 2 (run (replicate 7 0))) = counterPB01 (run (replicate 7 0)) \<and>
   counterPB01 (ISR_TIMER0_COMPA 3 (run (replicate 7 0))) = 0"
  using both_pressed_frame [of 0 "run (replicate 7 2)"]
    both_pressed_frame [of 2 "run (replicate 7 0)"]
    both_pressed_frame [of 3 "run (replicate 7 0)"]
  by simp

text \<open>
  C6, as the code has it. The hold counters are 16-bit unsigned integers and nothing
  keeps them at or below 1000: in a run from power-on each of them is at most the
  number of ticks so far and at most 65535.
\<close>

theorem hold_counters_bounded:
  "unat (counterPB0 (run samples)) \<le> min (length samples) 65535 \<and>
   unat (counterPB1 (run samples)) \<le> min (length samples) 65535 \<and>
   unat (counterPB01 (run samples)) \<le> min (length samples) 65535"
  using ticks_counters_le [of samples "setup_sketch globals"]
  by (simp add: run_def uint16_le)

text \<open>
  C6, as the specification has it, fails: after 1001 ticks with both buttons pressed
  the combined hold counter is 1001.
\<close>

theorem hold_counter_exceeds_1000:
  "\<not> unat (counterPB01 (run (replicate 1001 0))) \<le> 1000"
proof -
  have "counterPB01 (run (replicate 1001 0)) = of_nat 1001"
    by (rule run_hold)
  also have "\<dots> = 1001" by simp
  finally have eq: "counterPB01 (run (replicate 1001 0)) = 1001" .
  show ?thesis unfolding eq by simp
qed

text \<open>
  C7. Whatever the state before, \<^verbatim>\<open>actionPB01\<close> (Reset) leaves both digit buffers at
  blank, blank, blank, zero, and writes the four digits of the upper display and then
  the four digits of the lower display to the display driver.
\<close>

theorem reset_displays_zero:
  "upper (actionPB01 s) = (0x0F, 0x0F, 0x0F, 0x00) \<and>
   lower (actionPB01 s) = (0x0F, 0x0F, 0x0F, 0x00) \<and>
   trace (actionPB01 s) = trace s
     @ load_events 0x01 0x0F @ load_events 0x02 0x0F @ load_events 0x03 0x0F
     @ load_events 0x04 0x00
     @ load_events 0x05 0x0F @ load_events 0x06 0x0F @ load_events 0x07 0x0F
     @ load_events 0x08 0x00"
  by (simp add: actionPB01_eq upper_loads_def lower_loads_def)

text \<open>
  C8. \<^verbatim>\<open>display_init\<close> writes the five configuration registers in the order decode mode
  (\<open>0x09\<close>), intensity (\<open>0x0A\<close>), scan limit (\<open>0x0B\<close>), shutdown (\<open>0x0C\<close>) and display
  test (\<open>0x0F\<close>), each with its fixed value, before any digit register; it then writes
  the eight digit registers, and leaves three blanks and a zero in each digit buffer.
\<close>

theorem display_init_writes:
  "trace (display_init s) = trace s
     @ load_events 0x09 0xFF @ load_events 0x0A 0x0F @ load_events 0x0B 0x07
     @ load_events 0x0C 0x01 @ load_events 0x0F 0x00
     @ load_events 0x01 0x0F @ load_events 0x02 0x0F @ load_events 0x03 0x0F
     @ load_events 0x04 0x00
     @ load_events 0x05 0x0F @ load_events 0x06 0x0F @ load_events 0x07 0x0F
     @ load_events 0x08 0x00 \<and>
   upper (display_init s) = (0x0F, 0x0F, 0x0F, 0x00) \<and>
   lower (display_init s) = (0x0F, 0x0F, 0x0F, 0x00)"
  by (simp add: display_init_eq upper_loads_def lower_loads_def)

text \<open>
  C9. After any run of ticks from power-on, each of the eight digits holds a numeral,
  the blank or the overflow marker, and each digit buffer is the rendering of its
  logical counter: the count in decimal up to 9999, four overflow markers above.
\<close>

theorem digit_buffers_well_formed:
  "is_symbol (D0 (run samples)) \<and> is_symbol (D1 (run samples)) \<and>
   is_symbol (D2 (run samples)) \<and> is_symbol (D3 (run samples)) \<and>
   is_symbol (D4 (run samples)) \<and> is_symbol (D5 (run samples)) \<and>
   is_symbol (D6 (run samples)) \<and> is_symbol (D7 (run samples)) \<and>
   upper (run samples) = render (fst (logical_counters samples (setup_sketch globals) (0, 0))) \<and>
   lower (run samples) = render (snd (logical_counters samples (setup_sketch globals) (0, 0)))"
proof -
  define a where "a = fst (logical_counters samples (setup_sketch globals) (0, 0))"
  define b where "b = snd (logical_counters samples (setup_sketch globals) (0, 0))"
  have "upper (setup_sketch globals) = render 0" "lower (setup_sketch globals) = render 0"
    by (simp_all add: setup_sketch_def render_0)
  from buffers_ticks [OF this, of samples]
  have u: "upper (run samples) = render a" and l: "lower (run samples) = render b"
    by (simp_all add: run_def a_def b_def)
  have "render a = (D0 (run samples), D1 (run samples), D2 (run samples), D3 (run samples))"
    using u by (simp add: upper_def)
  from is_symbol_render [OF this]
  have su: "is_symbol (D0 (run samples))" "is_symbol (D1 (run samples))"
    "is_symbol (D2 (run samples))" "is_symbol (D3 (run samples))" by simp_all
  have "render b = (D4 (run samples), D5 (run samples), D6 (run samples), D7 (run samples))"
    using l by (simp add: lower_def)
  from is_symbol_render [OF this]
  have sl: "is_symbol (D4 (run samples))" "is_symbol (D5 (run samples))"
    "is_symbol (D6 (run samples))" "is_symbol (D7 (run samples))" by simp_all
  show ?thesis using su sl u l by (simp add: a_def b_def)
qed

theorem digit_buffers_well_formed_witness:
  "upper (run (replicate 60 2 @ [3])) = (0x0F, 0x0F, 0x0F, 1) \<and>
   lower (run (replicate 60 2 @ [3])) = (0x0F, 0x0F, 0x0F, 0)"
proof -
  have "(2 :: char8) AND 0x3 \<noteq> 3" by simp
  then have "logical_counters (replicate 60 2) (setup_sketch globals) (0, 0) = (0, 0)"
    by (rule logical_counters_hold)
  then have "logical_counters (replicate 60 2 @ [3]) (setup_sketch globals) (0, 0)
      = logical_counters [3] (ticks (replicate 60 2) (setup_sketch globals)) (0, 0)"
    by (simp only: logical_counters_append)
  also have "\<dots> = (1, 0)"
    by (simp add: hold_PB0)
  finally have "logical_counters (replicate 60 2 @ [3]) (setup_sketch globals) (0, 0) = (1, 0)" .
  moreover have "render 1 = (0x0F, 0x0F, 0x0F, 1)" by (simp add: render_def decimal4_def)
  ultimately show ?thesis
    using digit_buffers_well_formed [of "replicate 60 2 @ [3]"] by (simp add: render_0)
qed

text \<open>
  C10. On a tick that reads both buttons released the handler tests the three
  thresholds in the order PB0, PB1, both, each on its own hold counter, and calls the
  action of each one that is exceeded. When all three are exceeded it calls
  \<^verbatim>\<open>actionPB0\<close>, then \<^verbatim>\<open>actionPB1\<close>, then \<^verbatim>\<open>actionPB01\<close>: the display first receives the
  two incremented counts and then the two zeros, and both digit buffers end at blank,
  blank, blank, zero.
\<close>

theorem release_order:
  assumes "PINB AND 0x3 = 3"
  shows "ISR_TIMER0_COMPA PINB s =
      release_tick ((if 1000 < counterPB01 s then actionPB01 else id)
        \<circ> (if 50 < counterPB1 s then actionPB1 else id)
        \<circ> (if 50 < counterPB0 s then actionPB0 else id)) s \<and>
    (50 < counterPB0 s \<and> 50 < counterPB1 s \<and> 1000 < counterPB01 s \<longrightarrow>
      ISR_TIMER0_COMPA PINB s = release_tick (actionPB01 \<circ> actionPB1 \<circ> actionPB0) s \<and>
      trace (ISR_TIMER0_COMPA PINB s) = trace s @ [DigitalWrite ISRMKR HIGH]
        @ upper_loads (increment_digits (upper s))
        @ lower_loads (increment_digits (lower s))
        @ upper_loads (0x0F, 0x0F, 0x0F, 0x00) @ lower_loads (0x0F, 0x0F, 0x0F, 0x00)
        @ [DigitalWrite ISRMKR LOW] \<and>
      upper (ISR_TIMER0_COMPA PINB s) = (0x0F, 0x0F, 0x0F, 0x00) \<and>
      lower (ISR_TIMER0_COMPA PINB s) = (0x0F, 0x0F, 0x0F, 0x00))"
  using assms
  by (simp add: ISR_released release_tick_def digitalWrite_def
      actionPB0_eq actionPB1_eq actionPB01_eq)

theorem release_order_witness:
  "ISR_TIMER0_COMPA 3 (run (replicate 51 2 @ replicate 1001 0 @ replicate 51 1)) =
     release_tick (actionPB01 \<circ> actionPB1 \<circ> actionPB0)
       (run (replicate 51 2 @ replicate 1001 0 @ replicate 51 1)) \<and>
   upper (ISR_TIMER0_COMPA 3 (run (replicate 51 2 @ replicate 1001 0 @ replicate 51 1)))
     = (0x0F, 0x0F, 0x0F, 0x00) \<and>
   lower (ISR_TIMER0_COMPA 3 (run (replicate 51 2 @ replicate 1001 0 @ replicate 51 1)))
     = (0x0F, 0x0F, 0x0F, 0x00)"
proof -
  let ?s = "run (replicate 51 2 @ replicate 1001 0 @ replicate 51 1)"
  have "(3 :: char8) AND 0x3 = 3" by simp
  moreover have "50 < counterPB0 ?s \<and> 50 < counterPB1 ?s \<and> 1000 < counterPB01 ?s"
    using run_carry_over by simp
  ultimately show ?thesis using release_order [of 3 ?s] by blast
qed

end
